theory Spec2Isabelle
  imports Main "HOL-Library.AList" "HOL-Library.Word"
begin

section \<open>Errors\<close>

text \<open>
  Every exception the storage layer raises itself is a Python \<^verbatim>\<open>KeyError\<close>; the three
  raise sites differ in their message, and each gets a constructor of its own:
  \<^item> \<open>NoSerializerRegistered f\<close>: \<^verbatim>\<open>KeyError("No serializer registered for format: f")\<close>
    from \<^verbatim>\<open>SerializerRegistry.get\<close>;
  \<^item> \<open>UnknownFormat f\<close>: \<^verbatim>\<open>KeyError("Unknown format: f")\<close> from
    \<^verbatim>\<open>LocalFileStorage._get_extension\<close>;
  \<^item> \<open>KeyNotFound k\<close>: \<^verbatim>\<open>KeyError("Key not found: k")\<close> from \<^verbatim>\<open>LocalFileStorage.get\<close>.
  \<open>IOFailure\<close> stands for an \<^verbatim>\<open>OSError\<close> of the file system and \<open>CodecFailure\<close> for an
  exception raised inside a serializer.
\<close>

datatype error =
    NoSerializerRegistered string
  | UnknownFormat string
  | KeyNotFound string
  | IOFailure
  | CodecFailure

datatype error_kind = UnsupportedFormat | NotFound | IOFailureKind | DecodeError

fun kind_of :: "error \<Rightarrow> error_kind" where
  "kind_of (NoSerializerRegistered f) = UnsupportedFormat"
| "kind_of (UnknownFormat f) = UnsupportedFormat"
| "kind_of (KeyNotFound k) = NotFound"
| "kind_of IOFailure = IOFailureKind"
| "kind_of CodecFailure = DecodeError"

section \<open>Serializers and the registry\<close>

text \<open>
  The abstract class \<^verbatim>\<open>Serializer\<close>: a format identifier and two conversions. Values have
  type \<open>'v\<close> (Python's \<^verbatim>\<open>Any\<close>), the contents of a file have type \<open>'b\<close>. Both conversions
  may raise.
\<close>

record ('v, 'b) serializer =
  format :: string
  serialize :: "'v \<Rightarrow> error + 'b"
  deserialize :: "'b \<Rightarrow> error + 'v"

text \<open>
  \<^verbatim>\<open>SerializerRegistry._format_map\<close> is a Python dict. It is kept as an association list
  in insertion order; \<open>AList.update\<close> replaces the value of a key that is present, in
  place, and appends a new key at the end, as assignment to a dict does.
\<close>

type_synonym ('v, 'b) registry = "(string \<times> ('v, 'b) serializer) list"

definition SerializerRegistry_init :: "('v, 'b) registry" where
  "SerializerRegistry_init = []"

definition register :: "('v, 'b) registry \<Rightarrow> ('v, 'b) serializer \<Rightarrow> ('v, 'b) registry" where
  "register r ser = AList.update (format ser) ser r"

definition registry_get :: "('v, 'b) registry \<Rightarrow> string \<Rightarrow> error + ('v, 'b) serializer" where
  "registry_get r f =
     (case map_of r f of
        None \<Rightarrow> Inl (NoSerializerRegistered f)
      | Some ser \<Rightarrow> Inr ser)"

definition supported_formats :: "('v, 'b) registry \<Rightarrow> string list" where
  "supported_formats r = map fst r"

section \<open>The base directory\<close>

text \<open>
  The file system is the listing of the base directory: the names of the entries
  directly inside it, each a regular file with its contents or a subdirectory. A path
  \<^verbatim>\<open>base_path / name\<close> is identified with \<open>name\<close>, which is what the operating system
  does for a name that is a single path component. A key with a path separator names a
  file elsewhere and is outside this model; so are the limits an operating system puts
  on a file name. Writing to, reading and unlinking the name of a subdirectory fail, as
  does reading or unlinking a name that is absent.
\<close>

datatype 'b node = RegularFile 'b | Directory

type_synonym 'b directory = "(string \<times> 'b node) list"

definition path_exists :: "'b directory \<Rightarrow> string \<Rightarrow> bool" where
  "path_exists d p = (map_of d p \<noteq> None)"

fun is_file :: "'b node \<Rightarrow> bool" where
  "is_file (RegularFile b) = True"
| "is_file Directory = False"

definition write_bytes :: "'b directory \<Rightarrow> string \<Rightarrow> 'b \<Rightarrow> error + 'b directory" where
  "write_bytes d p data =
     (case map_of d p of
        Some Directory \<Rightarrow> Inl IOFailure
      | _ \<Rightarrow> Inr (AList.update p (RegularFile data) d))"

definition read_bytes :: "'b directory \<Rightarrow> string \<Rightarrow> error + 'b" where
  "read_bytes d p =
     (case map_of d p of
        None \<Rightarrow> Inl IOFailure
      | Some Directory \<Rightarrow> Inl IOFailure
      | Some (RegularFile data) \<Rightarrow> Inr data)"

definition unlink :: "'b directory \<Rightarrow> string \<Rightarrow> error + 'b directory" where
  "unlink d p =
     (case map_of d p of
        None \<Rightarrow> Inl IOFailure
      | Some Directory \<Rightarrow> Inl IOFailure
      | Some (RegularFile data) \<Rightarrow> Inr (AList.delete p d))"

definition iterdir :: "'b directory \<Rightarrow> (string \<times> 'b node) list" where
  "iterdir d = d"

text \<open>
  \<^verbatim>\<open>str.rfind\<close> for a single character: the index of its last occurrence, or \<open>-1\<close>.
\<close>

fun rfind :: "char \<Rightarrow> string \<Rightarrow> int" where
  "rfind c [] = -1"
| "rfind c (x # xs) =
     (let r = rfind c xs in
      if 0 \<le> r then r + 1 else if x = c then 0 else -1)"

text \<open>
  \<^verbatim>\<open>PurePath.suffix\<close> of a one-component name, as pathlib defines it up to Python 3.13:
  \<^verbatim>\<open>
  i = name.rfind('.')
  if 0 < i < len(name) - 1: return name[i:]
  else: return ''
  \<close>
\<close>

definition suffix :: "string \<Rightarrow> string" where
  "suffix name =
     (let i = rfind CHR ''.'' name in
      if 0 < i \<and> i < int (length name) - 1 then drop (nat i) name else [])"

section \<open>LocalFileStorage\<close>

record ('v, 'b) storage =
  base_dir :: "'b directory"
  registry :: "('v, 'b) registry"

definition FORMAT_TO_EXTENSION :: "(string \<times> string) list" where
  "FORMAT_TO_EXTENSION = [(''json'', ''.json''), (''npy'', ''.npy'')]"

definition get_extension :: "string \<Rightarrow> error + string" where
  "get_extension f =
     (case map_of FORMAT_TO_EXTENSION f of
        None \<Rightarrow> Inl (UnknownFormat f)
      | Some ext \<Rightarrow> Inr ext)"

definition build_path :: "string \<Rightarrow> string \<Rightarrow> error + string" where
  "build_path k f =
     (case get_extension f of
        Inl e \<Rightarrow> Inl e
      | Inr ext \<Rightarrow> Inr (k @ ext))"

text \<open>
  Each operation takes the storage and returns its result; \<open>save\<close> and \<open>delete\<close>, which
  write, return the storage after the call as well, unchanged when an exception leaves
  the call before the write.
\<close>

definition save ::
  "('v, 'b) storage \<Rightarrow> string \<Rightarrow> 'v \<Rightarrow> string \<Rightarrow> (error + unit) \<times> ('v, 'b) storage" where
  "save s k v f =
     (case registry_get (registry s) f of
        Inl e \<Rightarrow> (Inl e, s)
      | Inr ser \<Rightarrow>
          (case build_path k f of
             Inl e \<Rightarrow> (Inl e, s)
           | Inr p \<Rightarrow>
               (case serialize ser v of
                  Inl e \<Rightarrow> (Inl e, s)
                | Inr data \<Rightarrow>
                    (case write_bytes (base_dir s) p data of
                       Inl e \<Rightarrow> (Inl e, s)
                     | Inr d \<Rightarrow> (Inr (), s\<lparr>base_dir := d\<rparr>)))))"

definition get :: "('v, 'b) storage \<Rightarrow> string \<Rightarrow> string \<Rightarrow> error + 'v" where
  "get s k f =
     (case registry_get (registry s) f of
        Inl e \<Rightarrow> Inl e
      | Inr ser \<Rightarrow>
          (case build_path k f of
             Inl e \<Rightarrow> Inl e
           | Inr p \<Rightarrow>
               if \<not> path_exists (base_dir s) p then Inl (KeyNotFound k)
               else (case read_bytes (base_dir s) p of
                       Inl e \<Rightarrow> Inl e
                     | Inr data \<Rightarrow> deserialize ser data)))"

definition exists :: "('v, 'b) storage \<Rightarrow> string \<Rightarrow> string \<Rightarrow> error + bool" where
  "exists s k f =
     (case build_path k f of
        Inl e \<Rightarrow> Inl e
      | Inr p \<Rightarrow> Inr (path_exists (base_dir s) p))"

definition count :: "('v, 'b) storage \<Rightarrow> nat" where
  "count s =
     (let supported = set (map snd FORMAT_TO_EXTENSION) in
      length (filter (\<lambda>(name, e). is_file e \<and> suffix name \<in> supported)
                (iterdir (base_dir s))))"

definition delete ::
  "('v, 'b) storage \<Rightarrow> string \<Rightarrow> string \<Rightarrow> (error + bool) \<times> ('v, 'b) storage" where
  "delete s k f =
     (case build_path k f of
        Inl e \<Rightarrow> (Inl e, s)
      | Inr p \<Rightarrow>
          if \<not> path_exists (base_dir s) p then (Inr False, s)
          else (case unlink (base_dir s) p of
                  Inl e \<Rightarrow> (Inl e, s)
                | Inr d \<Rightarrow> (Inr True, s\<lparr>base_dir := d\<rparr>)))"

section \<open>Python values and the two serializers\<close>

text \<open>
  The values a caller can hand to \<^verbatim>\<open>save\<close>, as far as \<^verbatim>\<open>_to_json_compatible\<close> tells
  them apart. A dict key is a string or any other hashable object; the conversion only
  ever applies \<^verbatim>\<open>str\<close> to a key, so another key is kept as the text \<^verbatim>\<open>str\<close> returns for
  it. \<open>PFloat\<close> carries the bits of the double. \<open>PDataclass\<close> and \<open>PObject\<close> carry the
  fields of a dataclass instance and the \<^verbatim>\<open>__dict__\<close> of any other instance, in order.
  \<open>POther\<close> is an object of any other type that has no \<^verbatim>\<open>__dict__\<close> (a set, an ndarray),
  kept as the text \<^verbatim>\<open>str\<close> returns for it.
\<close>

datatype pykey = KStr string | KOther string

datatype pyval =
    PNone
  | PBool bool
  | PInt int
  | PFloat "64 word"
  | PStr string
  | PList "pyval list"
  | PTuple "pyval list"
  | PDict "(pykey \<times> pyval) list"
  | PDataclass "(string \<times> pyval) list"
  | PObject "(string \<times> pyval) list"
  | POther string

text \<open>
  A dict built from a sequence of pairs, as a dict comprehension or \<^verbatim>\<open>dict(pairs)\<close>
  builds it: a later pair with a key already present replaces the value and keeps the
  position of the key.
\<close>

definition dict_of :: "('k \<times> 'a) list \<Rightarrow> ('k \<times> 'a) list" where
  "dict_of kvs = foldl (\<lambda>d (k, v). AList.update k v d) [] kvs"

fun key_str :: "pykey \<Rightarrow> string" where
  "key_str (KStr s) = s"
| "key_str (KOther s) = s"

text \<open>
  \<^verbatim>\<open>dataclasses.asdict\<close> (standard library): dataclasses become dicts, recursively through
  lists, tuples and the values of dicts, which keep their type; everything else is
  copied.
\<close>

fun asdict_inner :: "pyval \<Rightarrow> pyval" where
  "asdict_inner (PDataclass fs) = PDict (dict_of (map (\<lambda>(n, v). (KStr n, asdict_inner v)) fs))"
| "asdict_inner (PList xs) = PList (map asdict_inner xs)"
| "asdict_inner (PTuple xs) = PTuple (map asdict_inner xs)"
| "asdict_inner (PDict kvs) = PDict (dict_of (map (\<lambda>(k, v). (k, asdict_inner v)) kvs))"
| "asdict_inner v = v"

definition asdict :: "pyval \<Rightarrow> pyval" where
  "asdict v = asdict_inner v"

text \<open>
  \<^verbatim>\<open>JsonSerializer._to_json_compatible\<close>, in the order of its tests: \<^verbatim>\<open>None\<close> and the
  primitives, dataclass instances, dicts, lists and tuples, objects with a
  \<^verbatim>\<open>__dict__\<close>, and \<^verbatim>\<open>str(value)\<close> as the last resort.
\<close>

fun to_json_compatible :: "pyval \<Rightarrow> pyval" where
  "to_json_compatible PNone = PNone"
| "to_json_compatible (PStr s) = PStr s"
| "to_json_compatible (PInt i) = PInt i"
| "to_json_compatible (PFloat x) = PFloat x"
| "to_json_compatible (PBool b) = PBool b"
| "to_json_compatible (PDataclass fs) = asdict (PDataclass fs)"
| "to_json_compatible (PDict kvs) =
     PDict (dict_of (map (\<lambda>(k, v). (KStr (key_str k), to_json_compatible v)) kvs))"
| "to_json_compatible (PList xs) = PList (map to_json_compatible xs)"
| "to_json_compatible (PTuple xs) = PList (map to_json_compatible xs)"
| "to_json_compatible (PObject attrs) =
     PDict (dict_of (map (\<lambda>(k, v). (KStr k, to_json_compatible v)) attrs))"
| "to_json_compatible (POther s) = PStr s"

text \<open>
  The codecs themselves are library functions: \<open>json_dumps\<close> stands for
  \<^verbatim>\<open>json.dumps(_, indent=2, ensure_ascii=False).encode("utf-8")\<close>, \<open>json_loads\<close> for
  \<^verbatim>\<open>json.loads(_.decode("utf-8"))\<close>, \<open>np_save\<close> and \<open>np_load\<close> for \<^verbatim>\<open>numpy.save\<close> into a
  buffer and \<^verbatim>\<open>numpy.load\<close> from one. The serializers take them as parameters.
\<close>

definition JsonSerializer ::
  "(pyval \<Rightarrow> error + 'b) \<Rightarrow> ('b \<Rightarrow> error + pyval) \<Rightarrow> (pyval, 'b) serializer" where
  "JsonSerializer json_dumps json_loads =
     \<lparr>format = ''json'',
      serialize = (\<lambda>v. json_dumps (to_json_compatible v)),
      deserialize = json_loads\<rparr>"

definition NumpySerializer ::
  "('v \<Rightarrow> error + 'b) \<Rightarrow> ('b \<Rightarrow> error + 'v) \<Rightarrow> ('v, 'b) serializer" where
  "NumpySerializer np_save np_load =
     \<lparr>format = ''npy'', serialize = np_save, deserialize = np_load\<rparr>"

text \<open>
  The values \<^verbatim>\<open>json.loads\<close> can return: \<^verbatim>\<open>None\<close>, primitives, lists of such values and
  dicts from distinct strings to such values.
\<close>

fun json_value :: "pyval \<Rightarrow> bool" where
  "json_value PNone = True"
| "json_value (PBool b) = True"
| "json_value (PInt i) = True"
| "json_value (PFloat x) = True"
| "json_value (PStr s) = True"
| "json_value (PList xs) = list_all json_value xs"
| "json_value (PDict kvs) =
     (distinct (map fst kvs) \<and>
      list_all (\<lambda>(k, v). (case k of KStr s \<Rightarrow> True | KOther s \<Rightarrow> False) \<and> json_value v) kvs)"
| "json_value v = False"

section \<open>Construction and sequences of calls\<close>

text \<open>
  \<^verbatim>\<open>LocalFileStorage.__init__\<close>: \<^verbatim>\<open>mkdir(parents=True, exist_ok=True)\<close> keeps a base
  directory that is there (\<open>Some d\<close>) and creates an empty one otherwise (\<open>None\<close>); the
  registry gets the numpy serializer, then the JSON serializer.
\<close>

definition LocalFileStorage_init ::
  "'b directory option \<Rightarrow> ('v, 'b) serializer \<Rightarrow> ('v, 'b) serializer \<Rightarrow> ('v, 'b) storage" where
  "LocalFileStorage_init existing numpy_serializer json_serializer =
     \<lparr>base_dir = (case existing of None \<Rightarrow> [] | Some d \<Rightarrow> d),
      registry = register (register SerializerRegistry_init numpy_serializer) json_serializer\<rparr>"






text \<open>
  The invariant that links the directory to the tracked pairs: the entries are regular
  files with distinct names, and their names are the paths of the tracked pairs.
\<close>

definition pair_path :: "string \<times> string \<Rightarrow> string" where
  "pair_path kf = (case build_path (fst kf) (snd kf) of Inl e \<Rightarrow> [] | Inr p \<Rightarrow> p)"


section \<open>Storages to run the operations on\<close>

text \<open>
  The codecs of these storages lose nothing: a file holds the very document handed to
  \<^verbatim>\<open>json.dumps\<close> or \<^verbatim>\<open>numpy.save\<close>. \<open>demo_storage\<close> is constructed on a path where no
  directory was, \<open>reopened_storage\<close> on a directory that holds a file already, and
  \<open>subdir_storage\<close> on a directory that holds a subdirectory named \<open>sub.json\<close>.
  \<open>stale_storage\<close> has files of both formats and a subdirectory, and a registry in which
  only the numpy serializer is registered.
\<close>

definition demo_storage :: "(pyval, pyval) storage" where
  "demo_storage = LocalFileStorage_init None (NumpySerializer Inr Inr) (JsonSerializer Inr Inr)"

definition reopened_storage :: "(pyval, pyval) storage" where
  "reopened_storage =
     LocalFileStorage_init (Some [(''old.json'', RegularFile PNone)])
       (NumpySerializer Inr Inr) (JsonSerializer Inr Inr)"

definition subdir_storage :: "(pyval, pyval) storage" where
  "subdir_storage =
     LocalFileStorage_init (Some [(''sub.json'', Directory)])
       (NumpySerializer Inr Inr) (JsonSerializer Inr Inr)"

definition stale_storage :: "(pyval, pyval) storage" where
  "stale_storage =
     \<lparr>base_dir = [(''a.json'', RegularFile PNone), (''m.npy'', RegularFile PNone),
                  (''sub.json'', Directory)],
      registry = register SerializerRegistry_init (NumpySerializer Inr Inr)\<rparr>"

section \<open>Extensions, paths and suffixes\<close>

lemmas demo_defs =
  demo_storage_def reopened_storage_def subdir_storage_def LocalFileStorage_init_def
  register_def SerializerRegistry_init_def JsonSerializer_def NumpySerializer_def

lemmas stale_defs =
  stale_storage_def register_def SerializerRegistry_init_def NumpySerializer_def

lemma map_of_FORMAT_TO_EXTENSION:
  "map_of FORMAT_TO_EXTENSION f =
     (if f = ''json'' then Some ''.json'' else if f = ''npy'' then Some ''.npy'' else None)"
  by (simp add: FORMAT_TO_EXTENSION_def)

lemma get_extension_cases:
  "get_extension f =
     (if f = ''json'' then Inr ''.json'' else if f = ''npy'' then Inr ''.npy''
      else Inl (UnknownFormat f))"
  by (simp add: get_extension_def map_of_FORMAT_TO_EXTENSION)

lemma build_path_cases:
  "build_path k f =
     (if f = ''json'' then Inr (k @ ''.json'') else if f = ''npy'' then Inr (k @ ''.npy'')
      else Inl (UnknownFormat f))"
  by (simp add: build_path_def get_extension_cases)

lemma json_npy_paths_differ: "k @ ''.json'' \<noteq> k' @ ''.npy''"
proof
  assume "k @ ''.json'' = k' @ ''.npy''"
  then have "last (k @ ''.json'') = last (k' @ ''.npy'')" by simp
  then show False by simp
qed

lemma build_path_inj:
  "build_path k f = Inr p \<Longrightarrow> build_path k' f' = Inr p \<Longrightarrow> k = k' \<and> f = f'"
  using json_npy_paths_differ [of k k'] json_npy_paths_differ [of k' k]
  by (auto simp: build_path_cases split: if_splits)

lemma rfind_absent: "c \<notin> set xs \<Longrightarrow> rfind c xs = -1"
  by (induction xs) (auto simp: Let_def)

lemma rfind_last_occurrence: "c \<notin> set zs \<Longrightarrow> rfind c (ys @ c # zs) = int (length ys)"
  by (induction ys) (auto simp: Let_def rfind_absent)

lemma rfind_found:
  "0 \<le> rfind c xs \<Longrightarrow> \<exists>ys zs. xs = ys @ c # zs \<and> c \<notin> set zs \<and> rfind c xs = int (length ys)"
proof (induction xs)
  case Nil
  then show ?case by simp
next
  case (Cons x xs)
  show ?case
  proof (cases "0 \<le> rfind c xs")
    case True
    with Cons.IH obtain ys zs where
      "xs = ys @ c # zs" "c \<notin> set zs" "rfind c xs = int (length ys)" by blast
    then have "x # xs = (x # ys) @ c # zs \<and> c \<notin> set zs \<and> rfind c (x # xs) = int (length (x # ys))"
      by (simp add: Let_def)
    then show ?thesis by blast
  next
    case False
    with Cons.prems have xc: "x = c" and r: "rfind c (x # xs) = 0"
      by (auto simp: Let_def split: if_splits)
    have "c \<notin> set xs"
    proof
      assume "c \<in> set xs"
      then obtain ys zs where "xs = ys @ c # zs" "c \<notin> set zs"
        by (meson split_list_last)
      then have "rfind c xs = int (length ys)" by (simp add: rfind_last_occurrence)
      with False show False by simp
    qed
    with xc r have "x # xs = [] @ c # xs \<and> c \<notin> set xs \<and> rfind c (x # xs) = int (length ([]::string))"
      by simp
    then show ?thesis by blast
  qed
qed

text \<open>
  A name has the suffix \<open>.r\<close>, for \<open>r\<close> not empty and without a dot, exactly when it is a
  stem that is not empty followed by \<open>.r\<close>.
\<close>

lemma suffix_eq_iff:
  assumes "CHR ''.'' \<notin> set r" and "r \<noteq> []"
  shows "suffix name = CHR ''.'' # r \<longleftrightarrow> (\<exists>stem. stem \<noteq> [] \<and> name = stem @ CHR ''.'' # r)"
proof
  assume s: "suffix name = CHR ''.'' # r"
  let ?i = "rfind CHR ''.'' name"
  from s have pos: "0 < ?i" and dr: "drop (nat ?i) name = CHR ''.'' # r"
    by (auto simp: suffix_def Let_def split: if_splits)
  from pos rfind_found [of "CHR ''.''" name] obtain ys zs where
    d: "name = ys @ CHR ''.'' # zs" "?i = int (length ys)" by auto
  from d dr have "CHR ''.'' # zs = CHR ''.'' # r" by simp
  with d pos have "ys \<noteq> [] \<and> name = ys @ CHR ''.'' # r" by auto
  then show "\<exists>stem. stem \<noteq> [] \<and> name = stem @ CHR ''.'' # r" by blast
next
  assume "\<exists>stem. stem \<noteq> [] \<and> name = stem @ CHR ''.'' # r"
  then obtain stem where st: "stem \<noteq> []" "name = stem @ CHR ''.'' # r" by blast
  with assms have "rfind CHR ''.'' name = int (length stem)"
    by (simp add: rfind_last_occurrence)
  with st assms show "suffix name = CHR ''.'' # r"
    by (cases r) (auto simp: suffix_def Let_def)
qed

lemma suffix_supported_iff:
  "suffix name \<in> set (map snd FORMAT_TO_EXTENSION) \<longleftrightarrow>
     (\<exists>stem. stem \<noteq> [] \<and> (name = stem @ ''.json'' \<or> name = stem @ ''.npy''))"
proof -
  have j: "suffix name = ''.json'' \<longleftrightarrow> (\<exists>stem. stem \<noteq> [] \<and> name = stem @ ''.json'')"
    using suffix_eq_iff [of "''json''" name] by simp
  have n: "suffix name = ''.npy'' \<longleftrightarrow> (\<exists>stem. stem \<noteq> [] \<and> name = stem @ ''.npy'')"
    using suffix_eq_iff [of "''npy''" name] by simp
  show ?thesis
    unfolding FORMAT_TO_EXTENSION_def using j n by auto
qed

lemma is_file_iff: "is_file e \<longleftrightarrow> (\<exists>b. e = RegularFile b)"
  by (cases e) auto

section \<open>Round trip of save and get\<close>

lemma get_after_save_general:
  assumes "registry_get (registry s) f = Inr ser"
      and "get_extension f = Inr ext"
      and "map_of (base_dir s) (k @ ext) \<noteq> Some Directory"
      and "serialize ser v = Inr data"
  shows "save s k v f = (Inr (), s\<lparr>base_dir := AList.update (k @ ext) (RegularFile data) (base_dir s)\<rparr>)"
    and "get (snd (save s k v f)) k f = deserialize ser data"
proof -
  from assms(3) have w: "write_bytes (base_dir s) (k @ ext) data =
      Inr (AList.update (k @ ext) (RegularFile data) (base_dir s))"
    by (auto simp: write_bytes_def split: option.splits node.splits)
  with assms show
    "save s k v f = (Inr (), s\<lparr>base_dir := AList.update (k @ ext) (RegularFile data) (base_dir s)\<rparr>)"
    by (simp add: save_def build_path_def)
  with assms show "get (snd (save s k v f)) k f = deserialize ser data"
    by (simp add: get_def build_path_def path_exists_def read_bytes_def AList.update_conv')
qed

lemma save_returns:
  assumes "fst (save s k v f) = Inr ()"
      and "registry_get (registry s) f = Inr ser"
  shows "\<exists>ext data. get_extension f = Inr ext \<and> serialize ser v = Inr data \<and>
           map_of (base_dir s) (k @ ext) \<noteq> Some Directory"
  using assms
  by (auto simp: save_def build_path_def write_bytes_def
      split: sum.splits option.splits node.splits)

text \<open>
  The values the JSON serializer hands to \<^verbatim>\<open>json.dumps\<close> unchanged are the JSON values.
\<close>

lemma to_json_compatible_dict_of:
  "distinct (map fst kvs) \<Longrightarrow> dict_of kvs = kvs"
proof -
  have "distinct (map fst (acc @ kvs)) \<Longrightarrow>
        foldl (\<lambda>d (k, v). AList.update k v d) acc kvs = acc @ kvs" for acc :: "('a \<times> 'b) list"
  proof (induction kvs arbitrary: acc)
    case Nil
    then show ?case by simp
  next
    case (Cons kv kvs)
    obtain k v where kv: "kv = (k, v)" by (cases kv)
    from Cons.prems kv have "k \<notin> fst ` set acc" by auto
    then have "AList.update k v acc = acc @ [(k, v)]"
      by (induction acc) auto
    with Cons.IH [of "acc @ [kv]"] Cons.prems kv show ?case by simp
  qed
  from this [of "[]"] show "distinct (map fst kvs) \<Longrightarrow> dict_of kvs = kvs"
    by (simp add: dict_of_def)
qed

lemma to_json_compatible_fixpoint: "json_value v \<Longrightarrow> to_json_compatible v = v"
proof (induction v rule: to_json_compatible.induct)
  case (7 kvs)
  from "7.prems" have d: "distinct (map fst kvs)"
    and a: "\<forall>(k, v) \<in> set kvs. (\<exists>s. k = KStr s) \<and> json_value v"
    by (auto simp: list_all_iff split: pykey.splits)
  have "map (\<lambda>(k, v). (KStr (key_str k), to_json_compatible v)) kvs = kvs"
  proof -
    have "(case kv of (k, v) \<Rightarrow> (KStr (key_str k), to_json_compatible v)) = kv"
      if "kv \<in> set kvs" for kv
    proof -
      obtain k v where kv: "kv = (k, v)" by (cases kv)
      with that a obtain s where "k = KStr s" "json_value v" by auto
      with "7.IH" [of kv k v] that kv show ?thesis by simp
    qed
    then show ?thesis by (simp add: map_idI)
  qed
  with d show ?case by (simp add: to_json_compatible_dict_of)
next
  case (8 xs)
  then show ?case by (simp add: list_all_iff map_idI)
qed simp_all

text \<open>
  Claim C1, as amended. For every key, value and format with a registered serializer
  for which \<open>save\<close> returns, \<open>get\<close> right after it returns the value saved, when
  \<^item> the serializer is the JSON serializer, the value is a JSON value, and \<^verbatim>\<open>json.loads\<close>
    gives back the value that \<^verbatim>\<open>json.dumps\<close> was given, or
  \<^item> the serializer is the numpy serializer, and \<^verbatim>\<open>numpy.load\<close> gives back the value
    that \<^verbatim>\<open>numpy.save\<close> was given.
\<close>

theorem get_after_save:
  assumes "registry_get (registry s) f = Inr ser"
      and "fst (save s k v f) = Inr ()"
      and "(ser = JsonSerializer json_dumps json_loads \<and> json_value v \<and>
              (\<forall>data. json_dumps v = Inr data \<longrightarrow> json_loads data = Inr v)) \<or>
           (ser = NumpySerializer np_save np_load \<and>
              (\<forall>data. np_save v = Inr data \<longrightarrow> np_load data = Inr v))"
  shows "get (snd (save s k v f)) k f = Inr v"
proof -
  from save_returns [OF assms(2,1)] obtain ext data where
    e: "get_extension f = Inr ext" and d: "serialize ser v = Inr data"
    and n: "map_of (base_dir s) (k @ ext) \<noteq> Some Directory" by blast
  have g: "get (snd (save s k v f)) k f = deserialize ser data"
    by (rule get_after_save_general(2) [OF assms(1) e n d])
  from assms(3) show ?thesis
  proof
    assume j: "ser = JsonSerializer json_dumps json_loads \<and> json_value v \<and>
              (\<forall>data. json_dumps v = Inr data \<longrightarrow> json_loads data = Inr v)"
    with d have "json_dumps v = Inr data"
      by (simp add: JsonSerializer_def to_json_compatible_fixpoint)
    with j have "json_loads data = Inr v" by blast
    with g j show ?thesis by (simp add: JsonSerializer_def)
  next
    assume n: "ser = NumpySerializer np_save np_load \<and>
              (\<forall>data. np_save v = Inr data \<longrightarrow> np_load data = Inr v)"
    with d have "np_save v = Inr data" by (simp add: NumpySerializer_def)
    with n have "np_load data = Inr v" by blast
    with g n show ?thesis by (simp add: NumpySerializer_def)
  qed
qed

theorem get_after_save_witness:
  "get (snd (save demo_storage ''2'' (PDict [(KStr ''number'', PInt 2)]) ''json'')) ''2'' ''json''
     = Inr (PDict [(KStr ''number'', PInt 2)]) \<and>
   get (snd (save demo_storage ''matrix'' (POther ''[[1 2 3] [4 5 6]]'') ''npy'')) ''matrix'' ''npy''
     = Inr (POther ''[[1 2 3] [4 5 6]]'')"
proof -
  let ?v = "PDict [(KStr ''number'', PInt 2)]"
  let ?a = "POther ''[[1 2 3] [4 5 6]]''"
  let ?js = "JsonSerializer Inr Inr :: (pyval, pyval) serializer"
  let ?ns = "NumpySerializer Inr Inr :: (pyval, pyval) serializer"
  have 1: "registry_get (registry demo_storage) ''json'' = Inr ?js"
    by (simp add: demo_defs registry_get_def)
  have 2: "fst (save demo_storage ''2'' ?v ''json'') = Inr ()"
    by (simp add: demo_defs save_def registry_get_def build_path_cases write_bytes_def)
  have 3: "(?js = JsonSerializer Inr Inr \<and> json_value ?v \<and>
              (\<forall>data. Inr ?v = (Inr data :: error + pyval) \<longrightarrow>
                 Inr data = (Inr ?v :: error + pyval))) \<or>
           (?js = NumpySerializer Inr Inr \<and>
              (\<forall>data. Inr ?v = (Inr data :: error + pyval) \<longrightarrow>
                 Inr data = (Inr ?v :: error + pyval)))"
    by simp
  have 4: "registry_get (registry demo_storage) ''npy'' = Inr ?ns"
    by (simp add: demo_defs registry_get_def)
  have 5: "fst (save demo_storage ''matrix'' ?a ''npy'') = Inr ()"
    by (simp add: demo_defs save_def registry_get_def build_path_cases write_bytes_def)
  have 6: "(?ns = JsonSerializer Inr Inr \<and> json_value ?a \<and>
              (\<forall>data. Inr ?a = (Inr data :: error + pyval) \<longrightarrow>
                 Inr data = (Inr ?a :: error + pyval))) \<or>
           (?ns = NumpySerializer Inr Inr \<and>
              (\<forall>data. Inr ?a = (Inr data :: error + pyval) \<longrightarrow>
                 Inr data = (Inr ?a :: error + pyval)))"
    by simp
  from get_after_save [OF 1 2 3] get_after_save [OF 4 5 6] show ?thesis by simp
qed

text \<open>
  As first stated, for every value and whether or not \<open>save\<close> returns, C1 fails. An
  object with a \<^verbatim>\<open>__dict__\<close> is saved as the dict of its attributes and comes back as
  that dict; this is what \<^verbatim>\<open>main.py\<close> does with \<^verbatim>\<open>SomeClass("C", 2)\<close> under the key
  \<^verbatim>\<open>"2"\<close>. And where a subdirectory has the name of the file, \<open>save\<close> fails in the write
  and \<open>get\<close> after it fails in the read.
\<close>

theorem get_after_save_counterexample:
  "fst (save demo_storage ''2'' (PObject [(''txt'', PStr ''C''), (''number'', PInt 2)]) ''json'') = Inr () \<and>
   get (snd (save demo_storage ''2'' (PObject [(''txt'', PStr ''C''), (''number'', PInt 2)]) ''json''))
       ''2'' ''json''
     = Inr (PDict [(KStr ''txt'', PStr ''C''), (KStr ''number'', PInt 2)]) \<and>
   get (snd (save demo_storage ''2'' (PObject [(''txt'', PStr ''C''), (''number'', PInt 2)]) ''json''))
       ''2'' ''json''
     \<noteq> Inr (PObject [(''txt'', PStr ''C''), (''number'', PInt 2)]) \<and>
   fst (save subdir_storage ''sub'' (PInt 1) ''json'') = Inl IOFailure \<and>
   get (snd (save subdir_storage ''sub'' (PInt 1) ''json'')) ''sub'' ''json'' = Inl IOFailure"
  by (simp add: demo_defs save_def get_def registry_get_def build_path_cases write_bytes_def
      read_bytes_def path_exists_def dict_of_def)

section \<open>Unsupported formats\<close>

text \<open>
  Claim C2. For every key and every format with no registered serializer, \<open>save\<close> fails
  with the \<open>UnsupportedFormat\<close> error of the registry and returns the storage it was given:
  no file is created, modified or partially written.
\<close>

theorem save_unregistered_format:
  assumes "f \<notin> set (supported_formats (registry s))"
  shows "save s k v f = (Inl (NoSerializerRegistered f), s) \<and>
         kind_of (NoSerializerRegistered f) = UnsupportedFormat"
proof -
  from assms have "map_of (registry s) f = None"
    by (simp add: supported_formats_def map_of_eq_None_iff)
  then show ?thesis by (simp add: save_def registry_get_def)
qed

theorem save_unregistered_format_witness:
  "save demo_storage ''k'' PNone ''xml'' = (Inl (NoSerializerRegistered ''xml''), demo_storage)"
proof -
  have "''xml'' \<notin> set (supported_formats (registry demo_storage))"
    by (simp add: demo_defs supported_formats_def)
  from save_unregistered_format [OF this] show ?thesis by simp
qed

text \<open>
  Claim C5. For every key and every format without an extension in
  \<open>FORMAT_TO_EXTENSION\<close>, \<open>exists\<close> and \<open>delete\<close> fail with the \<open>UnsupportedFormat\<close> error of
  the extension lookup, whatever the directory holds, and \<open>delete\<close> leaves the storage as
  it was.
\<close>

theorem exists_delete_unknown_extension:
  assumes "f \<notin> fst ` set FORMAT_TO_EXTENSION"
  shows "exists s k f = Inl (UnknownFormat f) \<and>
         delete s k f = (Inl (UnknownFormat f), s) \<and>
         kind_of (UnknownFormat f) = UnsupportedFormat"
proof -
  from assms have "map_of FORMAT_TO_EXTENSION f = None"
    by (simp add: map_of_eq_None_iff)
  then show ?thesis
    by (simp add: exists_def delete_def build_path_def get_extension_def)
qed

theorem exists_delete_unknown_extension_witness:
  "exists demo_storage ''k'' ''xml'' = Inl (UnknownFormat ''xml'') \<and>
   delete demo_storage ''k'' ''xml'' = (Inl (UnknownFormat ''xml''), demo_storage)"
proof -
  have "''xml'' \<notin> fst ` set FORMAT_TO_EXTENSION"
    by (simp add: FORMAT_TO_EXTENSION_def)
  from exists_delete_unknown_extension [OF this] show ?thesis by simp
qed

text \<open>
  Claim C6, as amended. For a format that has a registered serializer and an extension,
  \<open>get\<close> fails with \<open>NotFound\<close> when nothing is at the path, and with the I/O failure of
  the read when a subdirectory is at the path. For a format with no registered
  serializer \<open>get\<close> fails with \<open>UnsupportedFormat\<close>, whatever the directory holds: the
  registry is asked before the path is looked at.
\<close>

theorem get_failure_order:
  "(registry_get (registry s) f = Inr ser \<and> build_path k f = Inr p \<and>
      \<not> path_exists (base_dir s) p \<longrightarrow>
        get s k f = Inl (KeyNotFound k) \<and> kind_of (KeyNotFound k) = NotFound) \<and>
   (registry_get (registry s) f = Inr ser \<and> build_path k f = Inr p \<and>
      map_of (base_dir s) p = Some Directory \<longrightarrow>
        get s k f = Inl IOFailure \<and> kind_of IOFailure = IOFailureKind) \<and>
   (f \<notin> set (supported_formats (registry s)) \<longrightarrow>
        get s k f = Inl (NoSerializerRegistered f) \<and>
        kind_of (NoSerializerRegistered f) = UnsupportedFormat)"
proof (intro conjI impI)
  assume "f \<notin> set (supported_formats (registry s))"
  then have "map_of (registry s) f = None"
    by (simp add: supported_formats_def map_of_eq_None_iff)
  then show "get s k f = Inl (NoSerializerRegistered f)"
    by (simp add: get_def registry_get_def)
qed (simp_all add: get_def path_exists_def read_bytes_def)

theorem get_failure_order_witness:
  "get demo_storage ''5'' ''json'' = Inl (KeyNotFound ''5'') \<and>
   get subdir_storage ''sub'' ''json'' = Inl IOFailure \<and>
   exists stale_storage ''a'' ''json'' = Inr True \<and>
   get stale_storage ''a'' ''json'' = Inl (NoSerializerRegistered ''json'')"
proof -
  have 1: "registry_get (registry demo_storage) ''json'' = Inr (JsonSerializer Inr Inr) \<and>
        build_path ''5'' ''json'' = Inr ''5.json'' \<and>
        \<not> path_exists (base_dir demo_storage) ''5.json''"
    by (simp add: demo_defs registry_get_def build_path_cases path_exists_def)
  have 2: "''json'' \<notin> set (supported_formats (registry stale_storage))"
    by (simp add: stale_defs supported_formats_def)
  have 3: "exists stale_storage ''a'' ''json'' = Inr True"
    by (simp add: stale_defs exists_def build_path_cases path_exists_def)
  have 4: "registry_get (registry subdir_storage) ''json'' = Inr (JsonSerializer Inr Inr) \<and>
        build_path ''sub'' ''json'' = Inr ''sub.json'' \<and>
        map_of (base_dir subdir_storage) ''sub.json'' = Some Directory"
    by (simp add: demo_defs registry_get_def build_path_cases)
  from get_failure_order [of demo_storage "''json''" "JsonSerializer Inr Inr" "''5''" "''5.json''"]
       get_failure_order [of subdir_storage "''json''" "JsonSerializer Inr Inr" "''sub''" "''sub.json''"]
       get_failure_order [of stale_storage "''json''" _ "''a''"] 1 2 3 4
  show ?thesis by simp
qed

text \<open>
  As first stated, with \<open>NotFound\<close> whenever no stored object exists, C6 fails: with a
  subdirectory at the path no regular file is there, \<open>count\<close> is 0, and \<open>get\<close> fails with
  the I/O failure of the read, not with \<open>NotFound\<close>.
\<close>

theorem get_subdirectory_counterexample:
  "map_of (base_dir subdir_storage) ''sub.json'' = Some Directory \<and>
   count subdir_storage = 0 \<and>
   get subdir_storage ''sub'' ''json'' = Inl IOFailure \<and>
   kind_of IOFailure \<noteq> NotFound"
  by (simp add: demo_defs get_def registry_get_def build_path_cases read_bytes_def
      path_exists_def count_def iterdir_def)

section \<open>Counting\<close>

text \<open>
  Claim C4, as amended. \<open>count\<close> is the number of entries of the base directory that are
  regular files and whose name is a stem that is not empty followed by \<open>.json\<close> or
  \<open>.npy\<close>. Subdirectories and files with other suffixes are not counted. A file named
  just \<open>.json\<close> or \<open>.npy\<close> is not counted; any other name that begins with a dot and ends
  in a known extension is.
\<close>

theorem count_policy:
  "count s =
     length (filter (\<lambda>(name, e). (\<exists>b. e = RegularFile b) \<and>
                       (\<exists>stem. stem \<noteq> [] \<and> (name = stem @ ''.json'' \<or> name = stem @ ''.npy'')))
               (base_dir s))"
  unfolding count_def iterdir_def Let_def suffix_supported_iff is_file_iff ..

text \<open>
  As first stated, with hidden files never counted, C4 fails: the hidden file
  \<open>.a.json\<close> has the suffix \<open>.json\<close> and is counted.
\<close>

theorem count_hidden_file_counterexample:
  "count \<lparr>base_dir = [(''.a.json'', RegularFile ''{}'')], registry = ([] :: (pyval, string) registry)\<rparr> = 1"
  by (simp add: count_def iterdir_def suffix_def FORMAT_TO_EXTENSION_def Let_def)


lemma pair_path_build: "build_path k f = Inr p \<Longrightarrow> pair_path (k, f) = p"
  by (simp add: pair_path_def)












section \<open>Deleting and existence\<close>

text \<open>
  Claim C7. For every key and format with a known extension: when a regular file is at
  the path, the first \<open>delete\<close> returns \<open>True\<close>, a second one right after returns \<open>False\<close>,
  and \<open>exists\<close> is \<open>False\<close> after either; when nothing is at the path, \<open>delete\<close> returns
  \<open>False\<close> and changes nothing.
\<close>

theorem delete_twice:
  assumes "build_path k f = Inr p"
  shows "(map_of (base_dir s) p = Some (RegularFile b) \<longrightarrow>
            fst (delete s k f) = Inr True \<and>
            exists (snd (delete s k f)) k f = Inr False \<and>
            fst (delete (snd (delete s k f)) k f) = Inr False \<and>
            exists (snd (delete (snd (delete s k f)) k f)) k f = Inr False) \<and>
         (map_of (base_dir s) p = None \<longrightarrow> delete s k f = (Inr False, s))"
  using assms
  by (simp add: delete_def exists_def path_exists_def unlink_def AList.delete_conv')

theorem delete_twice_witness:
  "fst (delete stale_storage ''a'' ''json'') = Inr True \<and>
   exists (snd (delete stale_storage ''a'' ''json'')) ''a'' ''json'' = Inr False \<and>
   fst (delete (snd (delete stale_storage ''a'' ''json'')) ''a'' ''json'') = Inr False \<and>
   exists (snd (delete (snd (delete stale_storage ''a'' ''json'')) ''a'' ''json'')) ''a'' ''json''
     = Inr False \<and>
   delete stale_storage ''z'' ''npy'' = (Inr False, stale_storage)"
proof -
  have 1: "build_path ''a'' ''json'' = Inr ''a.json''"
    and 2: "map_of (base_dir stale_storage) ''a.json'' = Some (RegularFile PNone)"
    and 3: "build_path ''z'' ''npy'' = Inr ''z.npy''"
    and 4: "map_of (base_dir stale_storage) ''z.npy'' = None"
    by (simp_all add: build_path_cases stale_defs)
  from delete_twice [OF 1, of stale_storage PNone] delete_twice [OF 3, of stale_storage] 2 4
  show ?thesis by simp
qed

text \<open>
  Claim C8, as amended. Two storages with the same base directory give the same result
  of \<open>exists\<close> for every key and format, whatever their registries hold. For a format
  that is well formed for the backend, that is, one with an extension, \<open>exists\<close> does not
  fail and returns whether an entry, a regular file or a subdirectory, is at the path.
\<close>

theorem exists_ignores_registry:
  "(base_dir s1 = base_dir s2 \<longrightarrow> exists s1 k f = exists s2 k f) \<and>
   (get_extension f = Inr ext \<longrightarrow>
      exists s1 k f = Inr (map_of (base_dir s1) (k @ ext) \<noteq> None))"
proof (intro conjI impI)
  assume e: "base_dir s1 = base_dir s2"
  show "exists s1 k f = exists s2 k f" unfolding exists_def e ..
qed (simp add: exists_def build_path_def path_exists_def)

theorem exists_ignores_registry_witness:
  "exists stale_storage ''a'' ''json'' = exists (stale_storage\<lparr>registry := []\<rparr>) ''a'' ''json'' \<and>
   exists stale_storage ''a'' ''json'' = Inr True \<and>
   exists stale_storage ''b'' ''json'' = Inr False"
proof -
  have 2: "get_extension ''json'' = Inr ''.json''" by (simp add: get_extension_cases)
  have 3: "map_of (base_dir stale_storage) (''a'' @ ''.json'') \<noteq> None"
          "map_of (base_dir stale_storage) (''b'' @ ''.json'') = None"
    by (simp_all add: stale_defs)
  have a: "exists stale_storage ''a'' ''json'' = exists (stale_storage\<lparr>registry := []\<rparr>) ''a'' ''json''"
    using exists_ignores_registry [of stale_storage "stale_storage\<lparr>registry := []\<rparr>" "''a''" "''json''" "''.json''"]
    by simp
  have b: "exists stale_storage ''a'' ''json'' = Inr True"
    using exists_ignores_registry [of stale_storage stale_storage "''a''" "''json''" "''.json''"] 2 3(1)
    by simp
  have c: "exists stale_storage ''b'' ''json'' = Inr False"
    using exists_ignores_registry [of stale_storage stale_storage "''b''" "''json''" "''.json''"] 2 3(2)
    by simp
  from a b c show ?thesis by simp
qed

text \<open>
  As first stated, with \<open>exists\<close> true exactly when the backing file is there, C8 fails:
  for a subdirectory named \<open>sub.json\<close> \<open>exists\<close> is true, though no regular file is at the
  path and \<open>count\<close> is 0.
\<close>

theorem exists_subdirectory_counterexample:
  "exists subdir_storage ''sub'' ''json'' = Inr True \<and>
   map_of (base_dir subdir_storage) ''sub.json'' = Some Directory \<and>
   \<not> is_file Directory \<and>
   count subdir_storage = 0"
  by (simp add: demo_defs exists_def build_path_cases path_exists_def count_def iterdir_def)

section \<open>The registry\<close>

text \<open>
  Claim C9. \<open>register\<close> is total. After registering \<open>s1\<close> and then \<open>s2\<close> with the same
  format, the registry returns \<open>s2\<close> for that format; registering a serializer twice
  gives the registry that registering it once gives.
\<close>

theorem register_last_wins:
  "(format s1 = format s2 \<longrightarrow> registry_get (register (register r s1) s2) (format s1) = Inr s2) \<and>
   register (register r s1) s1 = register r s1"
  by (simp add: register_def registry_get_def AList.update_conv')

theorem register_last_wins_witness:
  "registry_get
     (register (register SerializerRegistry_init (JsonSerializer (\<lambda>v. Inl CodecFailure) Inr))
        (JsonSerializer Inr Inr :: (pyval, pyval) serializer)) ''json''
   = Inr (JsonSerializer Inr Inr)"
proof -
  have "format (JsonSerializer (\<lambda>v. Inl CodecFailure) Inr :: (pyval, pyval) serializer) =
        format (JsonSerializer Inr Inr :: (pyval, pyval) serializer)"
    by (simp add: JsonSerializer_def)
  with register_last_wins [of "JsonSerializer (\<lambda>v. Inl CodecFailure) Inr"
      "JsonSerializer Inr Inr :: (pyval, pyval) serializer" SerializerRegistry_init]
  show ?thesis by (simp add: JsonSerializer_def)
qed

section \<open>Other pairs are left alone\<close>

lemma save_base_dir:
  "base_dir (snd (save s k v f)) = base_dir s \<or>
   (\<exists>p data. build_path k f = Inr p \<and>
      base_dir (snd (save s k v f)) = AList.update p (RegularFile data) (base_dir s))"
  by (auto simp: save_def write_bytes_def split: sum.splits option.splits node.splits)

lemma delete_base_dir:
  "base_dir (snd (delete s k f)) = base_dir s \<or>
   (\<exists>p. build_path k f = Inr p \<and> base_dir (snd (delete s k f)) = AList.delete p (base_dir s))"
  by (auto simp: delete_def unlink_def split: sum.splits option.splits node.splits)

text \<open>
  Claim C10. For keys without a path separator, two different pairs of key and format
  never have the same path, so \<open>save\<close> and \<open>delete\<close> on one pair leave what is at the path
  of every other pair as it was.
\<close>

theorem other_pairs_untouched:
  assumes "CHR ''/'' \<notin> set k" and "CHR ''/'' \<notin> set k'"
      and "(k', f') \<noteq> (k, f)"
      and "build_path k' f' = Inr p'"
  shows "build_path k f \<noteq> Inr p' \<and>
         map_of (base_dir (snd (save s k v f))) p' = map_of (base_dir s) p' \<and>
         map_of (base_dir (snd (delete s k f))) p' = map_of (base_dir s) p'"
proof -
  from assms(3,4) have ne: "build_path k f \<noteq> Inr p'"
    using build_path_inj [of k f p' k' f'] by auto
  from ne save_base_dir [of s k v f]
  have "map_of (base_dir (snd (save s k v f))) p' = map_of (base_dir s) p'"
    by (auto simp: AList.update_conv')
  moreover from ne delete_base_dir [of s k f]
  have "map_of (base_dir (snd (delete s k f))) p' = map_of (base_dir s) p'"
    by (auto simp: AList.delete_conv')
  ultimately show ?thesis using ne by simp
qed

theorem other_pairs_untouched_witness:
  "map_of (base_dir (snd (save stale_storage ''m'' PNone ''npy''))) ''a.json''
     = Some (RegularFile PNone) \<and>
   map_of (base_dir (snd (delete stale_storage ''m'' ''npy''))) ''a.json''
     = Some (RegularFile PNone)"
proof -
  have 1: "CHR ''/'' \<notin> set ''m''" and 2: "CHR ''/'' \<notin> set ''a''"
    and 3: "(''a'', ''json'') \<noteq> (''m'', ''npy'')"
    and 4: "build_path ''a'' ''json'' = Inr ''a.json''"
    by (simp_all add: build_path_cases)
  have 5: "map_of (base_dir stale_storage) ''a.json'' = Some (RegularFile PNone)"
    by (simp add: stale_defs)
  from other_pairs_untouched [OF 1 2 3 4, of stale_storage PNone] 5
  show ?thesis by simp
qed

end
